theory Spec2Isabelle
  imports Main "HOL-Library.Sublist"
begin

section \<open>Strings of the Go standard library\<close>

text \<open>
  \<^verbatim>\<open>strings.HasSuffix(s, suffix)\<close> and \<^verbatim>\<open>strings.TrimPrefix(s, prefix)\<close>.
  \<^verbatim>\<open>TrimPrefix\<close> removes one leading occurrence of the prefix, and only one.
\<close>

definition HasSuffix :: "string \<Rightarrow> string \<Rightarrow> bool" where
  "HasSuffix s suf = suffix suf s"

definition HasPrefix :: "string \<Rightarrow> string \<Rightarrow> bool" where
  "HasPrefix s pre = prefix pre s"

definition TrimPrefix :: "string \<Rightarrow> string \<Rightarrow> string" where
  "TrimPrefix s pre = (if HasPrefix s pre then drop (length pre) s else s)"

section \<open>Prefix normalization\<close>

text \<open>
  The three statements at the head of \<^verbatim>\<open>List\<close> (gcs.go, lines 90 to 93) and of
  \<^verbatim>\<open>listRecursive\<close> (lines 121 to 124):
  \<^verbatim>\<open>if !strings.HasSuffix(dir, "/") { dir += "/" }; dir = strings.TrimPrefix(dir, "/")\<close>.
\<close>

definition normalize_prefix :: "string \<Rightarrow> string" where
  "normalize_prefix dir =
     TrimPrefix (if \<not> HasSuffix dir ''/'' then dir @ ''/'' else dir) ''/''"

section \<open>Errors\<close>

text \<open>
  Go's \<^verbatim>\<open>error\<close> values that reach this package. \<open>ErrObjectNotExist\<close> is
  \<^verbatim>\<open>storage.ErrObjectNotExist\<close>, \<open>Done\<close> is \<^verbatim>\<open>iterator.Done\<close>,
  \<open>Canceled\<close> is \<^verbatim>\<open>context.Canceled\<close> (what \<^verbatim>\<open>ctx.Err()\<close> is once the
  errgroup has cancelled its context), \<open>New m\<close> is any other error of a collaborator
  (the backend, the local file system, \<^verbatim>\<open>errors.New\<close>) with message \<open>m\<close>,
  \<open>NotExistError m\<close> is the package's \<^verbatim>\<open>&NotExistError{msg: m}\<close>, and
  \<open>Errorf m w\<close> is the value of \<^verbatim>\<open>fmt.Errorf\<close> with formatted message \<open>m\<close>,
  wrapping \<open>w\<close> when the format uses \<^verbatim>\<open>%w\<close>.
\<close>

datatype error =
    ErrObjectNotExist
  | Done
  | Canceled
  | New string
  | NotExistError string
  | Errorf string "error option"

text \<open>The text of \<^verbatim>\<open>err.Error()\<close>, which \<^verbatim>\<open>%s\<close> and \<^verbatim>\<open>%w\<close> print.\<close>

fun error_text :: "error \<Rightarrow> string" where
  "error_text ErrObjectNotExist = ''storage: object doesn'' @ [CHR 0x27] @ ''t exist''"
| "error_text Done = ''no more items in iterator''"
| "error_text Canceled = ''context canceled''"
| "error_text (New m) = m"
| "error_text (NotExistError m) = m"
| "error_text (Errorf m w) = m"

section \<open>The backend: a bucket of the object store\<close>

type_synonym bytes = "char list"

text \<open>
  \<^verbatim>\<open>storage.Query\<close> with the two fields the package sets, and
  \<^verbatim>\<open>storage.ObjectAttrs\<close> with the two fields a listing fills: \<open>Name\<close> for an
  object, and the library's \<^verbatim>\<open>Prefix\<close> field (here \<open>DirPrefix\<close>) for the synthetic
  directory entry of a delimited listing. The client library documents that when
  \<^verbatim>\<open>Prefix\<close> is set no other field of the attributes is populated, so the
  \<open>Name\<close> of a directory entry is the empty string.
\<close>

record Query =
  Prefix :: string
  Delimiter :: string

record ObjectAttrs =
  Name :: string
  DirPrefix :: string

text \<open>
  One answer of \<^verbatim>\<open>it.Next()\<close>: attributes with a nil error, or nil attributes with
  an error. An iterator is the list of its remaining answers; when the list is exhausted
  \<^verbatim>\<open>Next\<close> answers \<^verbatim>\<open>(nil, iterator.Done)\<close>. The error of an answer in the
  list is a failure of the listing, never \<^verbatim>\<open>iterator.Done\<close>.
\<close>

datatype next_result = Attrs ObjectAttrs | Err error

text \<open>
  A reader opened on an object: the bytes of the object and, when the transfer breaks,
  the number of bytes delivered before the error.
\<close>

record Reader =
  data :: bytes
  fault :: "(nat \<times> error) option"

text \<open>
  The state of the remote bucket that the client handle reaches: the stored objects in
  the backend's listing order, and the faults the backend answers with (a listing that
  fails after some answers, an open, a read or a delete that fails).
\<close>

record Bucket =
  contents :: "(string \<times> bytes) list"
  list_fault :: "Query \<Rightarrow> (nat \<times> error) option"
  open_fault :: "string \<Rightarrow> error option"
  read_fault :: "string \<Rightarrow> (nat \<times> error) option"
  delete_fault :: "string \<Rightarrow> error option"

text \<open>
  The part of \<open>rest\<close> up to and including the first occurrence of the delimiter,
  if the delimiter occurs in it.
\<close>

fun cut_delim :: "string \<Rightarrow> string \<Rightarrow> string option" where
  "cut_delim d [] = None"
| "cut_delim d (c # cs) =
     (if prefix d (c # cs) then Some d else map_option ((#) c) (cut_delim d cs))"

text \<open>
  What the object store lists for a query. Without a delimiter: every key that has the
  query's prefix as a literal string prefix. With a delimiter: the keys with that prefix
  whose remainder does not contain the delimiter, as objects, followed by one directory
  entry per distinct remainder cut after its first delimiter (the client appends the
  items of the answer and then its prefixes).
\<close>

definition object_entry :: "string \<Rightarrow> next_result" where
  "object_entry k = Attrs \<lparr>Name = k, DirPrefix = []\<rparr>"

definition dir_entry :: "string \<Rightarrow> next_result" where
  "dir_entry p = Attrs \<lparr>Name = [], DirPrefix = p\<rparr>"

definition list_objects :: "(string \<times> bytes) list \<Rightarrow> Query \<Rightarrow> next_result list" where
  "list_objects objs q =
     (let p = Prefix q;
          keys = filter (\<lambda>k. HasPrefix k p) (map fst objs)
      in if Delimiter q = [] then map object_entry keys
         else map object_entry
                (filter (\<lambda>k. cut_delim (Delimiter q) (drop (length p) k) = None) keys)
              @ map dir_entry
                  (remdups (concat (map (\<lambda>k.
                     case cut_delim (Delimiter q) (drop (length p) k) of
                       None \<Rightarrow> [] | Some c \<Rightarrow> [p @ c]) keys))))"

text \<open>\<^verbatim>\<open>bucket.Objects(ctx, &query)\<close>: the iterator over the listing, with the fault.\<close>

definition Objects :: "Bucket \<Rightarrow> Query \<Rightarrow> next_result list" where
  "Objects b q =
     (case list_fault b q of
        None \<Rightarrow> list_objects (contents b) q
      | Some (n, e) \<Rightarrow> take n (list_objects (contents b) q) @ [Err e])"

text \<open>\<^verbatim>\<open>obj.NewReader(ctx)\<close>, \<^verbatim>\<open>ioutil.ReadAll(reader)\<close> and \<^verbatim>\<open>obj.Delete(ctx)\<close>.\<close>

definition NewReader :: "Bucket \<Rightarrow> string \<Rightarrow> error + Reader" where
  "NewReader b name =
     (case open_fault b name of
        Some e \<Rightarrow> Inl e
      | None \<Rightarrow>
          (case map_of (contents b) name of
             None \<Rightarrow> Inl ErrObjectNotExist
           | Some d \<Rightarrow> Inr \<lparr>data = d, fault = read_fault b name\<rparr>))"

definition ReadAll :: "Reader \<Rightarrow> bytes \<times> error option" where
  "ReadAll r = (case fault r of None \<Rightarrow> (data r, None)
                | Some (n, e) \<Rightarrow> (take n (data r), Some e))"

definition DeleteObject :: "Bucket \<Rightarrow> string \<Rightarrow> Bucket \<times> error option" where
  "DeleteObject b name =
     (case delete_fault b name of
        Some e \<Rightarrow> (b, Some e)
      | None \<Rightarrow>
          if name \<in> set (map fst (contents b))
          then (b\<lparr>contents := filter (\<lambda>(k, d). k \<noteq> name) (contents b)\<rparr>, None)
          else (b, Some ErrObjectNotExist))"

section \<open>GCSStorage: single-object operations and List\<close>

record GCSStorage =
  bucketName :: string

definition RootURL :: "GCSStorage \<Rightarrow> string" where
  "RootURL s = ''gs://'' @ bucketName s"

definition Get :: "GCSStorage \<Rightarrow> Bucket \<Rightarrow> string \<Rightarrow> error + bytes" where
  "Get s b path =
     (let pathString = ''gs://'' @ bucketName s @ ''/'' @ path
      in case NewReader b path of
           Inl err \<Rightarrow>
             if err = ErrObjectNotExist
             then Inl (NotExistError (''Get: path does not exist: '' @ path))
             else Inl (Errorf (''Failed to open '' @ pathString @ '', got error: ''
                               @ error_text err) None)
         | Inr reader \<Rightarrow>
             (case ReadAll reader of
                (d, Some err) \<Rightarrow>
                  Inl (Errorf (''Failed to read '' @ pathString @ '', got error: ''
                               @ error_text err) None)
              | (d, None) \<Rightarrow> Inr d))"

text \<open>
  \<^verbatim>\<open>Put\<close> and \<^verbatim>\<open>PutDirectory\<close>: the bodies are a \<^verbatim>\<open>// TODO\<close> comment and
  \<^verbatim>\<open>return nil\<close>. The bucket is returned as it was, with the nil error.
\<close>

definition Put :: "GCSStorage \<Rightarrow> Bucket \<Rightarrow> string \<Rightarrow> bytes \<Rightarrow> Bucket \<times> error option" where
  "Put s b path d = (b, None)"

definition PutDirectory :: "GCSStorage \<Rightarrow> Bucket \<Rightarrow> string \<Rightarrow> string \<Rightarrow> Bucket \<times> error option" where
  "PutDirectory s b localPath storagePath = (b, None)"

text \<open>The loop of \<^verbatim>\<open>List\<close>: \<open>dir\<close> is the normalized directory of the message.\<close>

fun List_loop :: "GCSStorage \<Rightarrow> string \<Rightarrow> next_result list \<Rightarrow> string list \<Rightarrow> error + string list" where
  "List_loop s dir [] results = Inr results"
| "List_loop s dir (Err err # it) results =
     Inl (Errorf (''Failed to list gs://'' @ bucketName s @ ''/'' @ dir) None)"
| "List_loop s dir (Attrs attrs # it) results = List_loop s dir it (results @ [Name attrs])"

definition List :: "GCSStorage \<Rightarrow> Bucket \<Rightarrow> string \<Rightarrow> error + string list" where
  "List s b dir =
     (let dir = normalize_prefix dir
      in List_loop s dir (Objects b \<lparr>Prefix = dir, Delimiter = ''/''\<rparr>) [])"

section \<open>The streaming matcher\<close>

text \<open>
  \<^verbatim>\<open>ListResult\<close> is what \<^verbatim>\<open>listRecursive\<close> sends on the results channel. The run
  of the function is the sequence of values it sends, when the consumer keeps receiving,
  and how it ends: it closes the channel on \<^verbatim>\<open>iterator.Done\<close>. After an error answer
  the loop has no \<^verbatim>\<open>break\<close>: it sends the error result and goes on to
  \<^verbatim>\<open>filter(attrs.Name)\<close> with \<^verbatim>\<open>attrs\<close> nil, a nil pointer dereference, which
  panics.
\<close>

record ListResult =
  Path :: string
  Error :: "error option"

datatype ending = Closed | Panicked

fun listRecursive_loop ::
  "GCSStorage \<Rightarrow> string \<Rightarrow> (string \<Rightarrow> bool) \<Rightarrow> next_result list \<Rightarrow> ListResult list \<times> ending" where
  "listRecursive_loop s folder flt [] = ([], Closed)"
| "listRecursive_loop s folder flt (Err err # it) =
     ([\<lparr>Path = [], Error = Some (Errorf (''Failed to list gs://'' @ bucketName s @ ''/''
                                           @ folder) None)\<rparr>], Panicked)"
| "listRecursive_loop s folder flt (Attrs attrs # it) =
     (let (rs, e) = listRecursive_loop s folder flt it
      in ((if flt (Name attrs) then [\<lparr>Path = Name attrs, Error = None\<rparr>] else []) @ rs, e))"

definition listRecursive ::
  "GCSStorage \<Rightarrow> Bucket \<Rightarrow> string \<Rightarrow> (string \<Rightarrow> bool) \<Rightarrow> ListResult list \<times> ending" where
  "listRecursive s b folder flt =
     (let folder = normalize_prefix folder
      in listRecursive_loop s folder flt (Objects b \<lparr>Prefix = folder, Delimiter = []\<rparr>))"

text \<open>
  \<^verbatim>\<open>filepath.Base\<close> on a slash-separated path: the last element, after the trailing
  slashes are removed; \<^verbatim>\<open>"."\<close> for the empty path, \<^verbatim>\<open>"/"\<close> for a path of
  slashes only.
\<close>

definition Base :: "string \<Rightarrow> string" where
  "Base path =
     (if path = [] then ''.''
      else let stripped = rev (dropWhile (\<lambda>c. c = CHR ''/'') (rev path));
               el = rev (takeWhile (\<lambda>c. c \<noteq> CHR ''/'') (rev stripped))
           in if el = [] then ''/'' else el)"

definition MatchFilenamesRecursive ::
  "GCSStorage \<Rightarrow> Bucket \<Rightarrow> string \<Rightarrow> string \<Rightarrow> ListResult list \<times> ending" where
  "MatchFilenamesRecursive s b folder filename =
     listRecursive s b folder (\<lambda>key. Base key = filename)"

section \<open>Paths of the local file system\<close>

text \<open>
  \<^verbatim>\<open>path/filepath\<close> with the separator \<^verbatim>\<open>/\<close> and no volume names.
  \<open>split_slash\<close> is \<^verbatim>\<open>strings.Split(s, "/")\<close> and \<open>join_slash\<close> is
  \<^verbatim>\<open>strings.Join(elems, "/")\<close>.
\<close>

fun split_slash :: "string \<Rightarrow> string list" where
  "split_slash [] = [[]]"
| "split_slash (c # cs) =
     (if c = CHR ''/'' then [] # split_slash cs
      else (case split_slash cs of [] \<Rightarrow> [[c]] | x # xs \<Rightarrow> (c # x) # xs))"

fun join_slash :: "string list \<Rightarrow> string" where
  "join_slash [] = []"
| "join_slash [x] = x"
| "join_slash (x # y # ys) = x @ ''/'' @ join_slash (y # ys)"

text \<open>
  \<^verbatim>\<open>filepath.Clean\<close>, element by element: an empty element and \<^verbatim>\<open>.\<close> are
  dropped; \<^verbatim>\<open>..\<close> removes the last element kept, if there is one, is dropped at
  the root of a rooted path, and is kept at the front of a relative path; any other
  element is kept. The state is the number of leading \<^verbatim>\<open>..\<close> kept and the stack of
  the elements kept after them.
\<close>

fun clean_step :: "bool \<Rightarrow> nat \<times> string list \<Rightarrow> string \<Rightarrow> nat \<times> string list" where
  "clean_step rooted (ups, st) el =
     (if el = [] \<or> el = ''.'' then (ups, st)
      else if el = ''..'' then
        (case st of x # st' \<Rightarrow> (ups, st')
         | [] \<Rightarrow> if rooted then (ups, st) else (Suc ups, st))
      else (ups, el # st))"

definition Clean :: "string \<Rightarrow> string" where
  "Clean path =
     (if path = [] then ''.''
      else let rooted = (hd path = CHR ''/'');
               (ups, st) = foldl (clean_step rooted) (0, []) (split_slash path);
               body = join_slash (replicate ups ''..'' @ rev st)
           in if rooted then ''/'' @ body else if body = [] then ''.'' else body)"

text \<open>
  \<^verbatim>\<open>filepath.Join\<close>: the elements from the first non-empty one on, joined with
  slashes and cleaned. \<^verbatim>\<open>filepath.Dir\<close>: the path up to and including its last
  slash, cleaned.
\<close>

fun Join :: "string list \<Rightarrow> string" where
  "Join [] = []"
| "Join (e # es) = (if e \<noteq> [] then Clean (join_slash (e # es)) else Join es)"

definition Dir :: "string \<Rightarrow> string" where
  "Dir path = Clean (rev (dropWhile (\<lambda>c. c \<noteq> CHR ''/'') (rev path)))"

text \<open>
  \<^verbatim>\<open>filepath.Rel\<close>. It walks the cleaned base and target element by element while
  the elements agree. \<open>rel_loop\<close> takes what remains of both and returns, where the
  walk stops, what remains of the base, the first element of that remainder, and what
  remains of the target. \<open>Rel\<close> fails when that element of the base is \<^verbatim>\<open>..\<close>:
  the target cannot be reached from such a base by names alone, as from \<^verbatim>\<open>../..\<close> to
  \<^verbatim>\<open>..\<close>.
\<close>

definition drop_sep :: "string \<Rightarrow> string" where
  "drop_sep s = (if s \<noteq> [] then tl s else s)"

function rel_loop :: "string \<Rightarrow> string \<Rightarrow> string \<times> string \<times> string" where
  "rel_loop b t =
     (if b \<noteq> [] \<and> t \<noteq> [] then
        (let be = takeWhile (\<lambda>c. c \<noteq> CHR ''/'') b;
             te = takeWhile (\<lambda>c. c \<noteq> CHR ''/'') t
         in if te \<noteq> be then (b, be, t)
            else rel_loop (drop_sep (drop (length be) b)) (drop_sep (drop (length te) t)))
      else (b, takeWhile (\<lambda>c. c \<noteq> CHR ''/'') b, t))"
  by pat_completeness auto
termination
proof (relation "measure (\<lambda>(b, t). length b)")
  show "wf (measure (\<lambda>(b, t). length b))" by simp
next
  fix b t :: string and be te :: string
  assume nonempty: "b \<noteq> [] \<and> t \<noteq> []"
    and be: "be = takeWhile (\<lambda>c. c \<noteq> CHR ''/'') b"
  obtain c cs where b: "b = c # cs" using nonempty by (cases b) auto
  have "length (drop_sep (drop (length be) b)) < length b"
  proof (cases "c = CHR ''/''")
    case True
    with b be show ?thesis by (simp add: drop_sep_def)
  next
    case False
    with b be have "0 < length be" by simp
    then have "length (drop (length be) b) < length b" using b by simp
    moreover have "length (drop_sep xs) \<le> length xs" for xs
      by (simp add: drop_sep_def)
    ultimately show ?thesis by (meson le_less_trans)
  qed
  then show "((drop_sep (drop (length be) b), drop_sep (drop (length te) t)), (b, t))
             \<in> measure (\<lambda>(b, t). length b)"
    by simp
qed

definition Rel :: "string \<Rightarrow> string \<Rightarrow> error + string" where
  "Rel basepath targpath =
     (let base = Clean basepath; targ = Clean targpath
      in if targ = base then Inr ''.''
         else
           let base = (if base = ''.'' then [] else base);
               baseSlashed = (base \<noteq> [] \<and> hd base = CHR ''/'');
               targSlashed = (targ \<noteq> [] \<and> hd targ = CHR ''/'')
           in if baseSlashed \<noteq> targSlashed
              then Inl (New (''Rel: can'' @ [CHR 0x27] @ ''t make '' @ targpath
                             @ '' relative to '' @ basepath))
              else
                (case rel_loop base targ of
                   (brest, bel, trest) \<Rightarrow>
                     if bel = ''..''
                     then Inl (New (''Rel: can'' @ [CHR 0x27] @ ''t make '' @ targpath
                                    @ '' relative to '' @ basepath))
                     else if brest \<noteq> []
                     then Inr (''..''
                               @ concat (replicate (length (filter (\<lambda>c. c = CHR ''/'') brest))
                                                   ''/..'')
                               @ (if trest \<noteq> [] then ''/'' @ trest else []))
                     else Inr trest))"

section \<open>The local file system\<close>

text \<open>
  The files and directories that exist, named by their cleaned paths (the program passes
  the results of \<^verbatim>\<open>filepath.Join\<close> and \<^verbatim>\<open>filepath.Dir\<close>, which are clean),
  and the faults that \<^verbatim>\<open>mkdir\<close> and \<^verbatim>\<open>open\<close> can answer with besides. The
  root and the working directory always exist.
\<close>

record FileSystem =
  files :: "(string \<times> bytes) list"
  dirs :: "string list"
  mkdir_fault :: "string \<Rightarrow> error option"
  create_fault :: "string \<Rightarrow> error option"

definition is_dir :: "FileSystem \<Rightarrow> string \<Rightarrow> bool" where
  "is_dir fs path \<longleftrightarrow> path = ''/'' \<or> path = ''.'' \<or> path \<in> set (dirs fs)"

definition is_file :: "FileSystem \<Rightarrow> string \<Rightarrow> bool" where
  "is_file fs path \<longleftrightarrow> \<not> is_dir fs path \<and> path \<in> set (map fst (files fs))"

text \<open>
  \<^verbatim>\<open>os.Mkdir\<close>: fails when the path exists, when its parent is a regular file or
  does not exist, or on a fault.
\<close>

definition Mkdir :: "string \<Rightarrow> FileSystem \<Rightarrow> error + FileSystem" where
  "Mkdir path fs =
     (case mkdir_fault fs path of
        Some e \<Rightarrow> Inl e
      | None \<Rightarrow>
          if is_dir fs path \<or> is_file fs path
          then Inl (New (''mkdir '' @ path @ '': file exists''))
          else if is_file fs (Dir path)
          then Inl (New (''mkdir '' @ path @ '': not a directory''))
          else if \<not> is_dir fs (Dir path)
          then Inl (New (''mkdir '' @ path @ '': no such file or directory''))
          else Inr (fs\<lparr>dirs := path # dirs fs\<rparr>))"

text \<open>
  \<^verbatim>\<open>os.MkdirAll\<close>. If the path is a directory it does nothing; if it is a regular
  file it fails. Otherwise it skips the trailing separators and the last element of the
  path; if more than the first character remains before that element, it makes that parent
  with all its parents first (\<^verbatim>\<open>path[:j-1]\<close>, here \<open>mkdir_parent\<close>); then it
  calls \<^verbatim>\<open>Mkdir\<close> on the path, whose error it returns unless the path is a directory
  after all.
\<close>

definition mkdir_parent :: "string \<Rightarrow> string option" where
  "mkdir_parent path =
     (let stripped = rev (dropWhile (\<lambda>c. c = CHR ''/'') (rev path));
          upto = rev (dropWhile (\<lambda>c. c \<noteq> CHR ''/'') (rev stripped))
      in if length upto > 1 then Some (butlast upto) else None)"

function MkdirAll :: "string \<Rightarrow> FileSystem \<Rightarrow> error + FileSystem" where
  "MkdirAll path fs =
     (if is_dir fs path then Inr fs
      else if is_file fs path then Inl (New (''mkdir '' @ path @ '': not a directory''))
      else
        (case (case mkdir_parent path of
                 None \<Rightarrow> Inr fs
               | Some parent \<Rightarrow> MkdirAll parent fs) of
           Inl err \<Rightarrow> Inl err
         | Inr fs1 \<Rightarrow>
             (case Mkdir path fs1 of
                Inl err \<Rightarrow> if is_dir fs1 path then Inr fs1 else Inl err
              | Inr fs2 \<Rightarrow> Inr fs2)))"
  by pat_completeness auto
termination
proof (relation "measure (\<lambda>(path, fs). length path)")
  show "wf (measure (\<lambda>(path, fs). length path))" by simp
next
  fix path :: string and fs :: FileSystem and parent :: string
  assume "mkdir_parent path = Some parent"
  then obtain upto where parent: "parent = butlast upto" and nonempty: "length upto > 1"
    and upto: "upto = rev (dropWhile (\<lambda>c. c \<noteq> CHR ''/'')
                        (rev (rev (dropWhile (\<lambda>c. c = CHR ''/'') (rev path)))))"
    by (auto simp: mkdir_parent_def Let_def split: if_splits)
  have "length upto \<le> length (dropWhile (\<lambda>c. c = CHR ''/'') (rev path))"
    unfolding upto by (simp add: length_dropWhile_le)
  also have "\<dots> \<le> length path"
    using length_dropWhile_le [of "\<lambda>c. c = CHR ''/''" "rev path"] by simp
  finally have "length upto \<le> length path" .
  with parent nonempty have "length parent < length path" by simp
  then show "((parent, fs), (path, fs)) \<in> measure (\<lambda>(path, fs). length path)" by simp
qed

text \<open>
  \<^verbatim>\<open>os.Create\<close> creates the file or truncates it; it fails when the path is a
  directory, when its parent is a regular file or does not exist, or on a fault.
  \<open>Copy\<close> is \<^verbatim>\<open>io.Copy(f, reader)\<close> into the file created at \<open>path\<close>.
\<close>

definition write_file :: "string \<Rightarrow> bytes \<Rightarrow> FileSystem \<Rightarrow> FileSystem" where
  "write_file path d fs = fs\<lparr>files := (path, d) # filter (\<lambda>(p, x). p \<noteq> path) (files fs)\<rparr>"

definition Create :: "string \<Rightarrow> FileSystem \<Rightarrow> error + FileSystem" where
  "Create path fs =
     (case create_fault fs path of
        Some e \<Rightarrow> Inl e
      | None \<Rightarrow>
          if is_dir fs path
          then Inl (New (''open '' @ path @ '': is a directory''))
          else if is_file fs (Dir path)
          then Inl (New (''open '' @ path @ '': not a directory''))
          else if \<not> is_dir fs (Dir path)
          then Inl (New (''open '' @ path @ '': no such file or directory''))
          else Inr (write_file path [] fs))"

definition Copy :: "string \<Rightarrow> Reader \<Rightarrow> FileSystem \<Rightarrow> FileSystem \<times> error option" where
  "Copy path reader fs = (case ReadAll reader of (d, r) \<Rightarrow> (write_file path d fs, r))"

section \<open>The operations applied to each object\<close>

text \<open>
  What an operation can touch: the remote bucket and the local file system. The
  function passed to \<^verbatim>\<open>applyRecursive\<close> takes the name of the object and the world
  and returns the world it leaves and its error.
\<close>

record World =
  remote :: Bucket
  localfs :: FileSystem

type_synonym operation = "string \<Rightarrow> World \<Rightarrow> World \<times> error option"

text \<open>The function literal of \<^verbatim>\<open>Delete\<close>: \<^verbatim>\<open>obj.Delete(ctx)\<close>.\<close>

definition Delete_fn :: operation where
  "Delete_fn name w = (case DeleteObject (remote w) name of (b, r) \<Rightarrow> (w\<lparr>remote := b\<rparr>, r))"

text \<open>
  The function literal of \<^verbatim>\<open>GetDirectory\<close>. The inner \<^verbatim>\<open>localDir\<close>, which
  shadows the parameter, is \<open>localDir'\<close>.
\<close>

definition GetDirectory_fn :: "GCSStorage \<Rightarrow> string \<Rightarrow> string \<Rightarrow> operation" where
  "GetDirectory_fn s storageDir localDir name w =
     (let gcsPathString = ''gs://'' @ bucketName s @ ''/'' @ name
      in case NewReader (remote w) name of
           Inl err \<Rightarrow>
             (w, Some (Errorf (''Failed to open '' @ gcsPathString @ '', got error: ''
                               @ error_text err) (Some err)))
         | Inr reader \<Rightarrow>
             (case Rel storageDir name of
                Inl err \<Rightarrow>
                  (w, Some (Errorf (''Failed to determine directory of '' @ name
                                    @ '' relative to '' @ storageDir @ '', got error: ''
                                    @ error_text err) (Some err)))
              | Inr relPath \<Rightarrow>
                  (let localPath = Join [localDir, relPath];
                       localDir' = Dir localPath
                   in case MkdirAll localDir' (localfs w) of
                        Inl err \<Rightarrow>
                          (w, Some (Errorf (''Failed to create directory '' @ localDir'
                                            @ '', got error: '' @ error_text err) (Some err)))
                      | Inr fs1 \<Rightarrow>
                          (case Create localPath fs1 of
                             Inl err \<Rightarrow>
                               (w\<lparr>localfs := fs1\<rparr>,
                                Some (Errorf (''Failed to create file '' @ localPath
                                              @ '', got error: '' @ error_text err) (Some err)))
                           | Inr fs2 \<Rightarrow>
                               (case Copy localPath reader fs2 of
                                  (fs3, Some err) \<Rightarrow>
                                    (w\<lparr>localfs := fs3\<rparr>,
                                     Some (Errorf (''Failed to copy '' @ gcsPathString @ '' to ''
                                                   @ localPath @ '', got error: ''
                                                   @ error_text err) (Some err)))
                                | (fs3, None) \<Rightarrow> (w\<lparr>localfs := fs3\<rparr>, None))))))"

section \<open>The bounded concurrent applier\<close>

text \<open>
  \<^verbatim>\<open>applyRecursive\<close> runs one goroutine that lists and submits, and one goroutine
  per submitted object. A run is an interleaving of their steps, so the function is a step
  function on the state of the call, driven by a schedule.

  The state: the remaining answers of the iterator; where the listing goroutine stands
  (\<open>AtNext\<close>: about to call \<^verbatim>\<open>it.Next()\<close>; \<open>AtAcquire name\<close>: in
  \<^verbatim>\<open>sem.Acquire(ctx, 1)\<close> for the object \<open>name\<close>; \<open>AtWait\<close>: in
  \<^verbatim>\<open>group.Wait()\<close>; \<open>Returned r\<close>: \<^verbatim>\<open>applyRecursive\<close> has returned
  \<open>r\<close>); the semaphore's count of tokens held; the objects whose goroutine is
  executing \<^verbatim>\<open>fn\<close>; the results of the goroutines whose function has returned
  (the deferred \<^verbatim>\<open>sem.Release(1)\<close> done) and that the errgroup has not yet
  recorded; the errgroup's first error; whether its context is cancelled; the world the
  operations act on. \<open>started\<close> lists the objects submitted so far and
  \<open>next_calls\<close> counts the calls of \<^verbatim>\<open>it.Next()\<close>.
\<close>

datatype position = AtNext | AtAcquire string | AtWait | Returned "error option"

record apply_state =
  it :: "next_result list"
  pc :: position
  sem_cur :: int
  running :: "string list"
  exiting :: "error option list"
  group_err :: "error option"
  ctx_done :: bool
  world :: World
  started :: "string list"
  next_calls :: nat

text \<open>
  The steps. \<open>Main\<close> is the next action of the listing goroutine, when it is not
  blocked: \<^verbatim>\<open>Acquire\<close> succeeds when \<^verbatim>\<open>size - cur >= 1\<close> and is followed by
  \<^verbatim>\<open>group.Go\<close>; \<^verbatim>\<open>Wait\<close> returns the errgroup's error once every goroutine
  of the group has exited. \<open>AcquireCanceled\<close> is \<^verbatim>\<open>Acquire\<close> returning
  \<^verbatim>\<open>ctx.Err()\<close>, possible once the context is cancelled. \<open>OpReturn i\<close> is
  the \<open>i\<close>-th running operation returning: its effect on the world, its result,
  and the deferred release of its token. \<open>GoExit j\<close> is the errgroup recording the
  result of a returned function: the first non-nil error is kept and cancels the
  context. An operation acts on the world at the moment it returns; operations that have
  not returned yet have had no effect. The steps of the goroutines go on after the call
  has returned.
\<close>

datatype event = Main | AcquireCanceled | OpReturn nat | GoExit nat

definition remove_nth :: "nat \<Rightarrow> 'a list \<Rightarrow> 'a list" where
  "remove_nth i xs = take i xs @ drop (Suc i) xs"

definition applyRecursive_step :: "int \<Rightarrow> operation \<Rightarrow> event \<Rightarrow> apply_state \<Rightarrow> apply_state option" where
  "applyRecursive_step concurrency fn ev st =
     (case ev of
        Main \<Rightarrow>
          (case pc st of
             AtNext \<Rightarrow>
               (case it st of
                  [] \<Rightarrow> Some (st\<lparr>pc := AtWait, next_calls := Suc (next_calls st)\<rparr>)
                | Err err # rest \<Rightarrow>
                    Some (st\<lparr>it := rest, pc := Returned (Some err),
                             next_calls := Suc (next_calls st)\<rparr>)
                | Attrs attrs # rest \<Rightarrow>
                    Some (st\<lparr>it := rest, pc := AtAcquire (Name attrs),
                             next_calls := Suc (next_calls st)\<rparr>))
           | AtAcquire name \<Rightarrow>
               if concurrency - sem_cur st \<ge> 1
               then Some (st\<lparr>sem_cur := sem_cur st + 1, running := running st @ [name],
                              started := started st @ [name], pc := AtNext\<rparr>)
               else None
           | AtWait \<Rightarrow>
               if running st = [] \<and> exiting st = []
               then Some (st\<lparr>pc := Returned (group_err st)\<rparr>)
               else None
           | Returned r \<Rightarrow> None)
      | AcquireCanceled \<Rightarrow>
          (case pc st of
             AtAcquire name \<Rightarrow>
               if ctx_done st then Some (st\<lparr>pc := Returned (Some Canceled)\<rparr>) else None
           | _ \<Rightarrow> None)
      | OpReturn i \<Rightarrow>
          if i < length (running st)
          then (case fn (running st ! i) (world st) of
                  (w, r) \<Rightarrow>
                    Some (st\<lparr>world := w, sem_cur := sem_cur st - 1,
                             running := remove_nth i (running st),
                             exiting := exiting st @ [r]\<rparr>))
          else None
      | GoExit j \<Rightarrow>
          if j < length (exiting st)
          then (let r = exiting st ! j;
                    st' = st\<lparr>exiting := remove_nth j (exiting st)\<rparr>
                in Some (if r \<noteq> None \<and> group_err st = None
                         then st'\<lparr>group_err := r, ctx_done := True\<rparr>
                         else st'))
          else None)"

text \<open>A schedule is run from left to right; a step that is not enabled is skipped.\<close>

fun applyRecursive_run :: "int \<Rightarrow> operation \<Rightarrow> event list \<Rightarrow> apply_state \<Rightarrow> apply_state" where
  "applyRecursive_run concurrency fn [] st = st"
| "applyRecursive_run concurrency fn (ev # sched) st =
     applyRecursive_run concurrency fn sched
       (case applyRecursive_step concurrency fn ev st of None \<Rightarrow> st | Some st' \<Rightarrow> st')"

text \<open>
  The state at the first \<^verbatim>\<open>it.Next()\<close>: the query carries \<open>dir\<close> as it was
  passed, with no delimiter. The answers of the iterator are those of the bucket as it is
  when the call starts.
\<close>

definition applyRecursive_start :: "World \<Rightarrow> string \<Rightarrow> apply_state" where
  "applyRecursive_start w dir =
     \<lparr>it = Objects (remote w) \<lparr>Prefix = dir, Delimiter = []\<rparr>, pc = AtNext, sem_cur = 0,
      running = [], exiting = [], group_err = None, ctx_done = False, world = w,
      started = [], next_calls = 0\<rparr>"

definition applyRecursive :: "World \<Rightarrow> string \<Rightarrow> int \<Rightarrow> operation \<Rightarrow> event list \<Rightarrow> apply_state" where
  "applyRecursive w dir concurrency fn sched =
     applyRecursive_run concurrency fn sched (applyRecursive_start w dir)"

text \<open>What the call has returned, if it has returned.\<close>

definition result_of :: "apply_state \<Rightarrow> error option option" where
  "result_of st = (case pc st of Returned r \<Rightarrow> Some r | _ \<Rightarrow> None)"

text \<open>
  \<^verbatim>\<open>Delete\<close> and \<^verbatim>\<open>GetDirectory\<close> under a schedule: the world the schedule
  leaves, and the error returned if the call has returned.
\<close>

definition Delete :: "GCSStorage \<Rightarrow> World \<Rightarrow> string \<Rightarrow> event list \<Rightarrow> World \<times> error option option" where
  "Delete s w path sched =
     (let st = applyRecursive w path 128 Delete_fn sched
      in (world st,
          map_option (\<lambda>r. case r of
                 Some err \<Rightarrow> Some (Errorf (''Failed to delete gs://'' @ bucketName s @ ''/''
                                            @ path @ '': '' @ error_text err) (Some err))
               | None \<Rightarrow> None)
            (result_of st)))"

definition GetDirectory ::
  "GCSStorage \<Rightarrow> World \<Rightarrow> string \<Rightarrow> string \<Rightarrow> event list \<Rightarrow> World \<times> error option option" where
  "GetDirectory s w storageDir localDir sched =
     (let st = applyRecursive w storageDir 128 (GetDirectory_fn s storageDir localDir) sched
      in (world st,
          map_option (\<lambda>r. case r of
                 Some err \<Rightarrow> Some (Errorf (''Failed to copy gs://'' @ bucketName s @ ''/''
                                            @ storageDir @ '' to '' @ localDir
                                            @ '', got error: '' @ error_text err) (Some err))
               | None \<Rightarrow> None)
            (result_of st)))"

section \<open>Invariants of the applier\<close>

text \<open>The names of the attributes among the answers of an iterator, in order.\<close>

fun attrs_names :: "next_result list \<Rightarrow> string list" where
  "attrs_names [] = []"
| "attrs_names (Attrs attrs # rs) = Name attrs # attrs_names rs"
| "attrs_names (Err err # rs) = attrs_names rs"

text \<open>
  The tokens held are the running operations, and they are at most \<open>concurrency\<close>.
\<close>

definition tokens_inv :: "int \<Rightarrow> apply_state \<Rightarrow> bool" where
  "tokens_inv concurrency st \<longleftrightarrow>
     sem_cur st = int (length (running st)) \<and> sem_cur st \<le> concurrency"

text \<open>
  The objects submitted are the objects listed so far, in order; the listing is
  exhausted when the call waits for the group or has returned nil. \<open>answers\<close> is the
  iterator the call started with.
\<close>

definition traversal_inv :: "next_result list \<Rightarrow> apply_state \<Rightarrow> bool" where
  "traversal_inv answers st \<longleftrightarrow>
     set (started st) \<subseteq> set (attrs_names answers) \<and>
     (case pc st of
        AtNext \<Rightarrow> \<exists>pre. answers = pre @ it st \<and> attrs_names pre = started st
      | AtAcquire name \<Rightarrow> \<exists>pre. answers = pre @ it st \<and> attrs_names pre = started st @ [name]
      | AtWait \<Rightarrow> attrs_names answers = started st
      | Returned r \<Rightarrow> r = None \<longrightarrow> attrs_names answers = started st)"

text \<open>
  With no token to give (\<open>concurrency \<le> 0\<close>) nothing is ever submitted: the call is
  at its first \<^verbatim>\<open>it.Next()\<close>, or blocked in \<^verbatim>\<open>Acquire\<close> for the first object, or
  it has found the listing empty or failed at its first answer.
\<close>

definition idle_inv :: "next_result list \<Rightarrow> World \<Rightarrow> apply_state \<Rightarrow> bool" where
  "idle_inv answers w st \<longleftrightarrow>
     started st = [] \<and> running st = [] \<and> exiting st = [] \<and> sem_cur st = 0 \<and>
     \<not> ctx_done st \<and> group_err st = None \<and> world st = w \<and>
     (pc st \<noteq> AtNext \<longrightarrow> next_calls st = 1) \<and>
     (case pc st of
        AtNext \<Rightarrow> it st = answers \<and> next_calls st = 0
      | AtAcquire name \<Rightarrow> \<exists>attrs rest. answers = Attrs attrs # rest \<and> name = Name attrs
      | AtWait \<Rightarrow> answers = []
      | Returned r \<Rightarrow> (answers = [] \<and> r = None)
                      \<or> (\<exists>err rest. answers = Err err # rest \<and> r = Some err))"

section \<open>Example data\<close>

text \<open>
  A bucket without faults holding given objects, an empty local file system, and the
  namespace of the examples: \<^verbatim>\<open>a/b.txt\<close>, \<^verbatim>\<open>a/c/d.txt\<close>, \<^verbatim>\<open>a/e.txt\<close>.
\<close>

definition bucket_of :: "(string \<times> bytes) list \<Rightarrow> Bucket" where
  "bucket_of objs =
     \<lparr>contents = objs, list_fault = (\<lambda>q. None), open_fault = (\<lambda>k. None),
      read_fault = (\<lambda>k. None), delete_fault = (\<lambda>k. None)\<rparr>"

definition empty_fs :: FileSystem where
  "empty_fs = \<lparr>files = [], dirs = [], mkdir_fault = (\<lambda>p. None), create_fault = (\<lambda>p. None)\<rparr>"

definition world_of :: "(string \<times> bytes) list \<Rightarrow> World" where
  "world_of objs = \<lparr>remote = bucket_of objs, localfs = empty_fs\<rparr>"

definition example_objects :: "(string \<times> bytes) list" where
  "example_objects = [(''a/b.txt'', ''B''), (''a/c/d.txt'', ''D''), (''a/e.txt'', ''E'')]"

definition gcs :: GCSStorage where
  "gcs = \<lparr>bucketName = ''bkt''\<rparr>"

text \<open>The same bucket when its listings fail after the first answer.\<close>

definition failing_after_one :: "Query \<Rightarrow> (nat \<times> error) option" where
  "failing_after_one q = Some (1, New ''unavailable'')"

definition interrupted_world :: World where
  "interrupted_world =
     \<lparr>remote = (bucket_of example_objects)\<lparr>list_fault := failing_after_one\<rparr>,
      localfs = empty_fs\<rparr>"

text \<open>The same bucket when the delete of \<^verbatim>\<open>a/b.txt\<close> is refused.\<close>

definition refusing_delete :: "string \<Rightarrow> error option" where
  "refusing_delete k = (if k = ''a/b.txt'' then Some (New ''denied'') else None)"

definition refusing_world :: World where
  "refusing_world =
     \<lparr>remote = (bucket_of example_objects)\<lparr>delete_fault := refusing_delete\<rparr>,
      localfs = empty_fs\<rparr>"

text \<open>A bucket whose only key starts with \<^verbatim>\<open>a\<close> and is not under \<^verbatim>\<open>a/\<close>.\<close>

definition sibling_world :: World where
  "sibling_world = world_of [(''ab.txt'', ''X'')]"

section \<open>Properties of prefix normalization\<close>

lemma HasSuffix_slash: "HasSuffix s ''/'' \<longleftrightarrow> s \<noteq> [] \<and> last s = CHR ''/''"
  by (cases s rule: rev_cases) (auto simp: HasSuffix_def)

lemma HasPrefix_slash: "HasPrefix s ''/'' \<longleftrightarrow> s \<noteq> [] \<and> hd s = CHR ''/''"
  by (cases s) (auto simp: HasPrefix_def)

lemma TrimPrefix_slash: "TrimPrefix s ''/'' = (if s \<noteq> [] \<and> hd s = CHR ''/'' then tl s else s)"
  by (cases s) (simp_all add: TrimPrefix_def HasPrefix_def)

lemma normalize_prefix_cases:
  "normalize_prefix [] = []"
  "c \<noteq> CHR ''/'' \<Longrightarrow> normalize_prefix (c # s) =
     (if HasSuffix (c # s) ''/'' then c # s else c # s @ ''/'')"
  "normalize_prefix (CHR ''/'' # s) = (if s = [] \<or> HasSuffix s ''/'' then s else s @ ''/'')"
  by (auto simp: normalize_prefix_def TrimPrefix_slash HasSuffix_slash)

text \<open>
  Claim C10 says that normalization is idempotent for every string. The comment of the
  code asks for a prefix that ends with a slash and does not begin with one, but
  \<^verbatim>\<open>strings.TrimPrefix\<close> strips a single slash: \<^verbatim>\<open>"//a"\<close> is normalized to
  \<^verbatim>\<open>"/a/"\<close>, which still begins with a slash, and normalizing that gives
  \<^verbatim>\<open>"a/"\<close>; \<^verbatim>\<open>"//"\<close> goes to \<^verbatim>\<open>"/"\<close> and \<^verbatim>\<open>"/"\<close> to the empty
  string.
\<close>

theorem normalize_prefix_not_idempotent:
  "normalize_prefix ''//'' = ''/'' \<and> normalize_prefix (normalize_prefix ''//'') = ''''
   \<and> normalize_prefix (normalize_prefix ''//'') \<noteq> normalize_prefix ''//''
   \<and> normalize_prefix ''//a'' = ''/a/'' \<and> normalize_prefix (normalize_prefix ''//a'') = ''a/''
   \<and> normalize_prefix (normalize_prefix ''//a'') \<noteq> normalize_prefix ''//a''"
  by (simp add: normalize_prefix_def TrimPrefix_def HasPrefix_def HasSuffix_def suffix_to_prefix)

text \<open>
  Where the defect shows: a leading slash survives normalization exactly for the inputs
  that begin with two slashes, and those are exactly the inputs on which a second
  normalization changes the result.
\<close>

lemma normalize_prefix_leading_slash:
  "HasPrefix (normalize_prefix p) ''/'' \<longleftrightarrow> HasPrefix p ''//''"
proof (cases p)
  case Nil
  then show ?thesis by (simp add: normalize_prefix_cases HasPrefix_def)
next
  case (Cons c s)
  then show ?thesis
    by (cases "c = CHR ''/''"; cases s)
       (auto simp: normalize_prefix_cases HasPrefix_def HasSuffix_slash)
qed

lemma normalize_prefix_changes_again:
  "normalize_prefix (normalize_prefix p) \<noteq> normalize_prefix p \<longleftrightarrow> HasPrefix p ''//''"
proof (cases p)
  case Nil
  then show ?thesis by (simp add: normalize_prefix_cases HasPrefix_def)
next
  case (Cons c s)
  show ?thesis
  proof (cases "c = CHR ''/''")
    case False
    with Cons show ?thesis
      by (auto simp: normalize_prefix_cases HasPrefix_def HasSuffix_slash)
  next
    case True
    note c = this
    show ?thesis
    proof (cases s)
      case Nil
      with Cons c show ?thesis by (simp add: normalize_prefix_cases HasPrefix_def)
    next
      case (Cons d t)
      with \<open>p = c # s\<close> c show ?thesis
        by (cases "d = CHR ''/''")
           (auto simp: normalize_prefix_cases HasPrefix_def HasSuffix_slash)
    qed
  qed
qed

section \<open>Get\<close>

lemma sublist_mid: "sublist p (a @ p @ c)"
  by (auto simp: sublist_def)

lemma open_msg_path: "sublist ps (''Failed to open '' @ ps @ '', got error: '' @ t)"
  by (rule sublist_mid)

lemma read_msg_path: "sublist ps (''Failed to read '' @ ps @ '', got error: '' @ t)"
  by (rule sublist_mid)

lemma Get_unfold:
  "Get s b path =
     (case NewReader b path of
        Inl err \<Rightarrow>
          if err = ErrObjectNotExist
          then Inl (NotExistError (''Get: path does not exist: '' @ path))
          else Inl (Errorf (''Failed to open '' @ (''gs://'' @ bucketName s @ ''/'' @ path)
                            @ '', got error: '' @ error_text err) None)
      | Inr reader \<Rightarrow>
          (case ReadAll reader of
             (d, Some err) \<Rightarrow>
               Inl (Errorf (''Failed to read '' @ (''gs://'' @ bucketName s @ ''/'' @ path)
                            @ '', got error: '' @ error_text err) None)
           | (d, None) \<Rightarrow> Inr d))"
  unfolding Get_def Let_def ..

text \<open>
  Claim C8. \<^verbatim>\<open>Get\<close> returns a \<^verbatim>\<open>NotExistError\<close> exactly when opening the reader
  answers \<^verbatim>\<open>storage.ErrObjectNotExist\<close>. When the key is stored and the backend does
  not fail, it returns exactly the stored bytes. When opening fails with any other error,
  or reading fails, it returns an error whose message contains the full remote path
  \<^verbatim>\<open>gs://bucket/path\<close>.
\<close>

theorem Get_result:
  "((\<exists>m. Get s b path = Inl (NotExistError m)) \<longleftrightarrow> NewReader b path = Inl ErrObjectNotExist)
   \<and> (map_of (contents b) path = Some d \<and> open_fault b path = None
        \<and> read_fault b path = None \<longrightarrow> Get s b path = Inr d)
   \<and> ((\<exists>err. err \<noteq> ErrObjectNotExist \<and> NewReader b path = Inl err)
        \<or> (\<exists>reader d' err. NewReader b path = Inr reader \<and> ReadAll reader = (d', Some err))
        \<longrightarrow> (\<exists>m. Get s b path = Inl (Errorf m None)
                 \<and> sublist (''gs://'' @ bucketName s @ ''/'' @ path) m))"
proof -
  define ps where "ps = ''gs://'' @ bucketName s @ ''/'' @ path"
  note G = Get_unfold [of s b path, folded ps_def]
  have 1: "(\<exists>m. Get s b path = Inl (NotExistError m)) \<longleftrightarrow> NewReader b path = Inl ErrObjectNotExist"
    unfolding G by (auto split: sum.splits prod.splits option.splits)
  have 2: "map_of (contents b) path = Some d \<and> open_fault b path = None
        \<and> read_fault b path = None \<longrightarrow> Get s b path = Inr d"
    unfolding G by (simp add: NewReader_def ReadAll_def)
  have 3: "(\<exists>err. err \<noteq> ErrObjectNotExist \<and> NewReader b path = Inl err)
        \<or> (\<exists>reader d' err. NewReader b path = Inr reader \<and> ReadAll reader = (d', Some err))
        \<longrightarrow> (\<exists>m. Get s b path = Inl (Errorf m None) \<and> sublist ps m)"
    unfolding G using open_msg_path [of ps] read_msg_path [of ps] by auto
  from 1 2 3 show ?thesis unfolding ps_def by blast
qed

theorem Get_result_witness:
  "Get gcs (bucket_of example_objects) ''a/e.txt'' = Inr ''E''
   \<and> Get gcs (bucket_of example_objects) ''a/x.txt''
       = Inl (NotExistError ''Get: path does not exist: a/x.txt'')
   \<and> NewReader (bucket_of example_objects) ''a/x.txt'' = Inl ErrObjectNotExist
   \<and> (\<exists>m. Get gcs ((bucket_of example_objects)\<lparr>open_fault := (\<lambda>k. Some (New ''denied''))\<rparr>)
             ''a/e.txt'' = Inl (Errorf m None)
          \<and> sublist ''gs://bkt/a/e.txt'' m)"
  using Get_result [of gcs "bucket_of example_objects" "''a/e.txt''" "''E''"]
    Get_result [of gcs "bucket_of example_objects" "''a/x.txt''" "''E''"]
    Get_result [of gcs "(bucket_of example_objects)\<lparr>open_fault := (\<lambda>k. Some (New ''denied''))\<rparr>"
                   "''a/e.txt''" "''E''"]
  by (simp add: bucket_of_def example_objects_def gcs_def NewReader_def Get_def ReadAll_def)

section \<open>Put and PutDirectory\<close>

text \<open>
  Claim C9 says that \<^verbatim>\<open>Put\<close> and \<^verbatim>\<open>PutDirectory\<close> never return nil while doing
  nothing. The code does exactly that: for every input, both return the nil error and
  leave the bucket as it was.
\<close>

theorem Put_silent_noop:
  "Put s b path d = (b, None) \<and> PutDirectory s b localPath storagePath = (b, None)"
  by (simp add: Put_def PutDirectory_def)

section \<open>List\<close>

text \<open>
  Claim C6 says that \<^verbatim>\<open>List("a")\<close> over \<^verbatim>\<open>a/b.txt\<close>, \<^verbatim>\<open>a/c/d.txt\<close>,
  \<^verbatim>\<open>a/e.txt\<close> returns \<^verbatim>\<open>a/b.txt\<close>, \<^verbatim>\<open>a/c/\<close>, \<^verbatim>\<open>a/e.txt\<close>. The code
  appends \<^verbatim>\<open>attrs.Name\<close> for every entry, and the entry of the subdirectory carries
  its marker in the prefix field with an empty name: the result holds the two object keys
  and the empty string, and not \<^verbatim>\<open>a/c/\<close>.
\<close>

theorem List_example_drops_marker:
  "List gcs (bucket_of example_objects) ''a'' = Inr [''a/b.txt'', ''a/e.txt'', '''']
   \<and> Objects (bucket_of example_objects) \<lparr>Prefix = ''a/'', Delimiter = ''/''\<rparr>
       = [object_entry ''a/b.txt'', object_entry ''a/e.txt'', dir_entry ''a/c/'']"
  by (simp add: List_def bucket_of_def example_objects_def normalize_prefix_def TrimPrefix_def
      HasPrefix_def HasSuffix_def suffix_to_prefix Objects_def list_objects_def
      object_entry_def dir_entry_def)

section \<open>The streaming matcher\<close>

lemma listRecursive_loop_after_error:
  "listRecursive_loop s folder flt iter = (rs, e) \<Longrightarrow> rs = xs @ r # ys \<Longrightarrow> Error r \<noteq> None
   \<Longrightarrow> ys = [] \<and> e = Panicked"
proof (induction s folder flt iter arbitrary: rs e xs rule: listRecursive_loop.induct)
  case (1 s folder flt)
  then show ?case by simp
next
  case (2 s folder flt err iter)
  then show ?case by (auto simp: Cons_eq_append_conv)
next
  case (3 s folder flt attrs iter)
  obtain rs' e' where l: "listRecursive_loop s folder flt iter = (rs', e')"
    by (cases "listRecursive_loop s folder flt iter")
  show ?case
  proof (cases "flt (Name attrs)")
    case False
    with 3 l show ?thesis by auto
  next
    case True
    with 3(2) l have rs: "rs = \<lparr>Path = Name attrs, Error = None\<rparr> # rs'" and e: "e = e'"
      by auto
    with 3(3,4) obtain xs' where "rs' = xs' @ r # ys"
      by (cases xs) auto
    with 3(1)[OF l this 3(4)] e show ?thesis by simp
  qed
qed

text \<open>
  Claim C5. In the sequence of results that \<^verbatim>\<open>listRecursive\<close> sends, nothing follows
  an error result: no success result is sent after it. The goroutine does not reach
  another send, because the statement after the send of the error dereferences the nil
  attributes and panics.
\<close>

theorem listRecursive_nothing_after_error:
  assumes "listRecursive s b folder flt = (rs, e)"
    and "rs = xs @ r # ys"
    and "Error r \<noteq> None"
  shows "ys = [] \<and> e = Panicked"
  using assms unfolding listRecursive_def Let_def
  by (rule listRecursive_loop_after_error)

theorem listRecursive_nothing_after_error_witness:
  "listRecursive gcs ((bucket_of example_objects)\<lparr>list_fault := (\<lambda>q. Some (1, New ''unavailable''))\<rparr>)
     ''a'' (\<lambda>k. True)
   = ([\<lparr>Path = ''a/b.txt'', Error = None\<rparr>,
       \<lparr>Path = '''', Error = Some (Errorf ''Failed to list gs://bkt/a/'' None)\<rparr>], Panicked)
   \<and> ([]::ListResult list) = [] \<and> Panicked = Panicked"
proof -
  have run: "listRecursive gcs ((bucket_of example_objects)\<lparr>list_fault := (\<lambda>q. Some (1, New ''unavailable''))\<rparr>)
     ''a'' (\<lambda>k. True)
   = ([\<lparr>Path = ''a/b.txt'', Error = None\<rparr>]
       @ \<lparr>Path = '''', Error = Some (Errorf ''Failed to list gs://bkt/a/'' None)\<rparr> # [], Panicked)"
    by (simp add: listRecursive_def bucket_of_def example_objects_def gcs_def
        normalize_prefix_def TrimPrefix_def HasPrefix_def HasSuffix_def suffix_to_prefix
        Objects_def list_objects_def object_entry_def)
  from listRecursive_nothing_after_error [OF run refl] run show ?thesis by simp
qed

section \<open>The applier: invariants of every run\<close>

lemma run_invariant:
  assumes "P st"
    and "\<And>ev st st'. P st \<Longrightarrow> applyRecursive_step concurrency fn ev st = Some st' \<Longrightarrow> P st'"
  shows "P (applyRecursive_run concurrency fn sched st)"
  using assms(1)
proof (induction sched arbitrary: st)
  case Nil
  then show ?case by simp
next
  case (Cons ev sched)
  show ?case
  proof (cases "applyRecursive_step concurrency fn ev st")
    case None
    with Cons show ?thesis by simp
  next
    case (Some st')
    with Cons.prems assms(2) have "P st'" by blast
    with Cons.IH Some show ?thesis by simp
  qed
qed

lemma length_remove_nth: "i < length xs \<Longrightarrow> length (remove_nth i xs) = length xs - 1"
  by (simp add: remove_nth_def)

lemma tokens_inv_step:
  assumes "tokens_inv concurrency st"
    and "applyRecursive_step concurrency fn ev st = Some st'"
  shows "tokens_inv concurrency st'"
proof (cases ev)
  case Main
  with assms show ?thesis
    by (auto simp: applyRecursive_step_def tokens_inv_def
        split: position.splits list.splits next_result.splits if_splits)
next
  case AcquireCanceled
  with assms show ?thesis
    by (auto simp: applyRecursive_step_def tokens_inv_def split: position.splits if_splits)
next
  case (OpReturn i)
  with assms show ?thesis
    by (auto simp: applyRecursive_step_def tokens_inv_def length_remove_nth
        split: prod.splits if_splits)
next
  case (GoExit j)
  with assms show ?thesis
    by (auto simp: applyRecursive_step_def tokens_inv_def Let_def split: if_splits)
qed

lemma tokens_inv_start: "0 \<le> concurrency \<Longrightarrow> tokens_inv concurrency (applyRecursive_start w dir)"
  by (simp add: tokens_inv_def applyRecursive_start_def)

lemma OpReturn_releases:
  assumes "i < length (running st)"
  shows "\<exists>st'. applyRecursive_step concurrency fn (OpReturn i) st = Some st'
           \<and> sem_cur st' = sem_cur st - 1
           \<and> exiting st' = exiting st @ [snd (fn (running st ! i) (world st))]"
  using assms by (auto simp: applyRecursive_step_def split: prod.splits)

text \<open>
  Claim C3. For a pool of \<open>concurrency \<ge> 0\<close> tokens, in the state \<open>st\<close> reached by
  any schedule of \<^verbatim>\<open>applyRecursive\<close> (so at every point of every run): the tokens
  held are exactly the operations in flight, and they are at most \<open>concurrency\<close>; and
  every operation in flight, when it returns, releases its token whatever its result,
  nil or an error.
\<close>

theorem applyRecursive_tokens_bounded:
  assumes "0 \<le> concurrency"
    and "st = applyRecursive w dir concurrency fn sched"
  shows "sem_cur st = int (length (running st)) \<and> int (length (running st)) \<le> concurrency
         \<and> (\<forall>i < length (running st).
              \<exists>st'. applyRecursive_step concurrency fn (OpReturn i) st = Some st'
                    \<and> sem_cur st' = sem_cur st - 1
                    \<and> exiting st' = exiting st @ [snd (fn (running st ! i) (world st))])"
proof -
  have "tokens_inv concurrency st"
    unfolding assms(2) applyRecursive_def
    by (rule run_invariant [where P = "tokens_inv concurrency"],
        rule tokens_inv_start [OF assms(1)], rule tokens_inv_step)
  then have "sem_cur st = int (length (running st))" and "int (length (running st)) \<le> concurrency"
    by (simp_all add: tokens_inv_def)
  moreover have "\<forall>i < length (running st).
              \<exists>st'. applyRecursive_step concurrency fn (OpReturn i) st = Some st'
                    \<and> sem_cur st' = sem_cur st - 1
                    \<and> exiting st' = exiting st @ [snd (fn (running st ! i) (world st))]"
    using OpReturn_releases by blast
  ultimately show ?thesis by blast
qed

theorem applyRecursive_tokens_bounded_witness:
  "(0::int) \<le> 2
   \<and> running (applyRecursive (world_of example_objects) ''a'' 2 Delete_fn
                [Main, Main, Main, Main, Main, Main]) = [''a/b.txt'', ''a/c/d.txt'']
   \<and> sem_cur (applyRecursive (world_of example_objects) ''a'' 2 Delete_fn
                [Main, Main, Main, Main, Main, Main]) = 2
   \<and> pc (applyRecursive (world_of example_objects) ''a'' 2 Delete_fn
                [Main, Main, Main, Main, Main, Main]) = AtAcquire ''a/e.txt''
   \<and> sem_cur (applyRecursive (world_of example_objects) ''a'' 2 Delete_fn
                [Main, Main, Main, Main, Main, Main, OpReturn 1]) = 1"
proof -
  let ?st = "applyRecursive (world_of example_objects) ''a'' 2 Delete_fn
               [Main, Main, Main, Main, Main, Main]"
  have r: "running ?st = [''a/b.txt'', ''a/c/d.txt'']" by code_simp
  have p: "pc ?st = AtAcquire ''a/e.txt''" by code_simp
  have q: "sem_cur (applyRecursive (world_of example_objects) ''a'' 2 Delete_fn
                [Main, Main, Main, Main, Main, Main, OpReturn 1]) = 1" by code_simp
  have "sem_cur ?st = int (length (running ?st))"
    using applyRecursive_tokens_bounded [of 2 ?st "world_of example_objects" "''a''" Delete_fn
        "[Main, Main, Main, Main, Main, Main]"] by simp
  with r p q show ?thesis by simp
qed

section \<open>The applier without tokens\<close>

lemma idle_inv_step:
  assumes "concurrency \<le> 0"
    and "idle_inv answers w st"
    and "applyRecursive_step concurrency fn ev st = Some st'"
  shows "idle_inv answers w st'"
proof (cases ev)
  case Main
  with assms show ?thesis
    by (auto simp: applyRecursive_step_def idle_inv_def
        split: position.splits list.splits next_result.splits if_splits)
next
  case AcquireCanceled
  with assms show ?thesis
    by (auto simp: applyRecursive_step_def idle_inv_def split: position.splits if_splits)
next
  case (OpReturn i)
  with assms show ?thesis
    by (auto simp: applyRecursive_step_def idle_inv_def split: prod.splits if_splits)
next
  case (GoExit j)
  with assms show ?thesis
    by (auto simp: applyRecursive_step_def idle_inv_def Let_def split: if_splits)
qed

lemma idle_inv_start:
  "idle_inv (Objects (remote w) \<lparr>Prefix = dir, Delimiter = []\<rparr>) w (applyRecursive_start w dir)"
  by (simp add: idle_inv_def applyRecursive_start_def)

lemma idle_inv_run:
  assumes "concurrency \<le> 0"
  shows "idle_inv (Objects (remote w) \<lparr>Prefix = dir, Delimiter = []\<rparr>) w
           (applyRecursive w dir concurrency fn sched)"
  unfolding applyRecursive_def
  by (rule run_invariant
        [where P = "idle_inv (Objects (remote w) \<lparr>Prefix = dir, Delimiter = []\<rparr>) w"],
      rule idle_inv_start, rule idle_inv_step [OF assms])

text \<open>
  Claim C4, as stated: with \<open>concurrency \<le> 0\<close> the call fails with a configuration
  error before any listing call. The code has no such check. With \<open>concurrency = 0\<close>
  over an empty bucket the call asks the iterator for its first answer and returns nil;
  over the example bucket it asks for the first answer and then stays in
  \<^verbatim>\<open>Acquire\<close>, without having returned anything.
\<close>

theorem applyRecursive_zero_lists_and_returns_nil:
  "result_of (applyRecursive (world_of []) ''a'' 0 Delete_fn [Main, Main]) = Some None
   \<and> next_calls (applyRecursive (world_of []) ''a'' 0 Delete_fn [Main, Main]) = 1
   \<and> pc (applyRecursive (world_of example_objects) ''a'' 0 Delete_fn [Main, Main, AcquireCanceled])
       = AtAcquire ''a/b.txt''
   \<and> next_calls (applyRecursive (world_of example_objects) ''a'' 0 Delete_fn
                   [Main, Main, AcquireCanceled]) = 1"
  by code_simp

text \<open>
  Claim C4, amended. With \<open>concurrency \<le> 0\<close>, whatever the schedule: no operation is
  ever submitted and the world is untouched; the call has returned only after calling
  \<^verbatim>\<open>it.Next()\<close> once; over an empty listing it can only return nil, and does after
  two steps; over a listing whose first answer is an error it can only return that error,
  and does after one step; over a listing whose first answer is an object it never
  returns.
\<close>

theorem applyRecursive_without_tokens:
  assumes "concurrency \<le> 0"
    and "answers = Objects (remote w) \<lparr>Prefix = dir, Delimiter = []\<rparr>"
    and "st = applyRecursive w dir concurrency fn sched"
  shows "started st = [] \<and> running st = [] \<and> world st = w
         \<and> (result_of st \<noteq> None \<longrightarrow> next_calls st = 1)
         \<and> (case answers of
               [] \<Rightarrow> (result_of st = None \<or> result_of st = Some None)
                     \<and> result_of (applyRecursive w dir concurrency fn [Main, Main]) = Some None
             | Err err # rest \<Rightarrow>
                     (result_of st = None \<or> result_of st = Some (Some err))
                     \<and> result_of (applyRecursive w dir concurrency fn [Main]) = Some (Some err)
             | Attrs attrs # rest \<Rightarrow> result_of st = None)"
proof -
  have inv: "idle_inv answers w st"
    unfolding assms(2,3) by (rule idle_inv_run [OF assms(1)])
  have live: "(answers = [] \<longrightarrow>
                 result_of (applyRecursive w dir concurrency fn [Main, Main]) = Some None)
              \<and> (\<forall>err rest. answers = Err err # rest \<longrightarrow>
                 result_of (applyRecursive w dir concurrency fn [Main]) = Some (Some err))"
    unfolding assms(2)
    by (auto simp: applyRecursive_def applyRecursive_start_def applyRecursive_step_def
        result_of_def)
  from inv have basic: "started st = [] \<and> running st = [] \<and> world st = w
         \<and> (result_of st \<noteq> None \<longrightarrow> next_calls st = 1)"
    by (auto simp: idle_inv_def result_of_def split: position.splits)
  from inv have res: "(case answers of
               [] \<Rightarrow> (result_of st = None \<or> result_of st = Some None)
             | Err err # rest \<Rightarrow> (result_of st = None \<or> result_of st = Some (Some err))
             | Attrs attrs # rest \<Rightarrow> result_of st = None)"
    by (auto simp: idle_inv_def result_of_def split: position.splits list.splits next_result.splits)
  from basic res live show ?thesis
    by (auto split: list.splits next_result.splits)
qed

theorem applyRecursive_without_tokens_witness:
  "(0::int) \<le> 0
   \<and> started (applyRecursive (world_of example_objects) ''a'' 0 Delete_fn
                [Main, Main, AcquireCanceled, OpReturn 0, Main]) = []
   \<and> result_of (applyRecursive (world_of example_objects) ''a'' 0 Delete_fn
                [Main, Main, AcquireCanceled, OpReturn 0, Main]) = None
   \<and> result_of (applyRecursive (world_of []) ''a'' 0 Delete_fn [Main, Main]) = Some None"
proof -
  have a1: "Objects (remote (world_of example_objects)) \<lparr>Prefix = ''a'', Delimiter = []\<rparr>
            = [object_entry ''a/b.txt'', object_entry ''a/c/d.txt'', object_entry ''a/e.txt'']"
    by (simp add: world_of_def bucket_of_def example_objects_def Objects_def list_objects_def
        HasPrefix_def)
  have a2: "Objects (remote (world_of [])) \<lparr>Prefix = ''a'', Delimiter = []\<rparr> = []"
    by (simp add: world_of_def bucket_of_def Objects_def list_objects_def)
  from applyRecursive_without_tokens [of 0, OF _ refl refl, of "world_of example_objects" "''a''"
      Delete_fn "[Main, Main, AcquireCanceled, OpReturn 0, Main]"]
  have "started (applyRecursive (world_of example_objects) ''a'' 0 Delete_fn
                [Main, Main, AcquireCanceled, OpReturn 0, Main]) = []
     \<and> result_of (applyRecursive (world_of example_objects) ''a'' 0 Delete_fn
                [Main, Main, AcquireCanceled, OpReturn 0, Main]) = None"
    by (simp add: a1 object_entry_def)
  moreover from applyRecursive_without_tokens [of 0, OF _ refl refl, of "world_of []" "''a''"
      Delete_fn "[]"]
  have "result_of (applyRecursive (world_of []) ''a'' 0 Delete_fn [Main, Main]) = Some None"
    by (simp add: a2)
  ultimately show ?thesis by simp
qed

section \<open>The applier: returning before the operations have finished\<close>

text \<open>
  Claim C1 says that \<^verbatim>\<open>applyRecursive\<close> returns only when every operation it has
  started has finished, and returns the first error observed. The code waits for the
  group only after the listing is exhausted; its two returns inside the loop do not.

  First run, concurrency 1, the listing failing after its first answer: the call submits
  the delete of \<^verbatim>\<open>a/b.txt\<close>, asks for the next answer and returns the listing error
  while that delete is still running, the object still in the bucket; the delete takes
  effect after the call has returned.

  Second run, concurrency 1, the delete of \<^verbatim>\<open>a/b.txt\<close> refused: the call is in
  \<^verbatim>\<open>Acquire\<close> for the second object when the failure cancels the context, and it
  returns \<^verbatim>\<open>context.Canceled\<close>, not the error of the operation, which is the first
  error the group recorded.
\<close>

theorem applyRecursive_returns_early:
  "result_of (applyRecursive interrupted_world ''a'' 1 Delete_fn [Main, Main, Main])
     = Some (Some (New ''unavailable''))
   \<and> running (applyRecursive interrupted_world ''a'' 1 Delete_fn [Main, Main, Main])
     = [''a/b.txt'']
   \<and> map fst (contents (remote (world
        (applyRecursive interrupted_world ''a'' 1 Delete_fn [Main, Main, Main]))))
     = [''a/b.txt'', ''a/c/d.txt'', ''a/e.txt'']
   \<and> map fst (contents (remote (world
        (applyRecursive interrupted_world ''a'' 1 Delete_fn [Main, Main, Main, OpReturn 0]))))
     = [''a/c/d.txt'', ''a/e.txt'']
   \<and> result_of (applyRecursive refusing_world ''a'' 1 Delete_fn
        [Main, Main, Main, OpReturn 0, GoExit 0, AcquireCanceled])
     = Some (Some Canceled)
   \<and> group_err (applyRecursive refusing_world ''a'' 1 Delete_fn
        [Main, Main, Main, OpReturn 0, GoExit 0, AcquireCanceled])
     = Some (New ''denied'')"
  by code_simp

section \<open>GetDirectory and the local directory\<close>

text \<open>
  Claim C7 says that no file is created outside \<^verbatim>\<open>localDir\<close>. The listing of
  \<^verbatim>\<open>GetDirectory("a", "/tmp/out")\<close> uses the prefix \<^verbatim>\<open>a\<close> as passed, so it
  yields the key \<^verbatim>\<open>ab.txt\<close>; its path relative to \<^verbatim>\<open>a\<close> is
  \<^verbatim>\<open>../ab.txt\<close>, and the file is created at \<^verbatim>\<open>/tmp/ab.txt\<close>, outside
  \<^verbatim>\<open>/tmp/out\<close>. The call returns nil.
\<close>

theorem GetDirectory_writes_outside_localDir:
  "Rel ''a'' ''ab.txt'' = Inr ''../ab.txt''
   \<and> Join [''/tmp/out'', ''../ab.txt''] = ''/tmp/ab.txt''
   \<and> snd (GetDirectory gcs sibling_world ''a'' ''/tmp/out''
             [Main, Main, OpReturn 0, GoExit 0, Main, Main]) = Some None
   \<and> files (localfs (fst (GetDirectory gcs sibling_world ''a'' ''/tmp/out''
             [Main, Main, OpReturn 0, GoExit 0, Main, Main]))) = [(''/tmp/ab.txt'', ''X'')]
   \<and> \<not> HasPrefix ''/tmp/ab.txt'' ''/tmp/out/''"
  by code_simp

section \<open>Which keys a traversal visits\<close>

text \<open>
  Claim C2 says that every recursive operation normalizes its prefix, so that a traversal
  of \<^verbatim>\<open>a\<close> never visits \<^verbatim>\<open>ab.txt\<close>. \<^verbatim>\<open>applyRecursive\<close> lacks the
  normalization that \<^verbatim>\<open>List\<close> and \<^verbatim>\<open>listRecursive\<close> begin with: over a bucket
  holding \<^verbatim>\<open>ab.txt\<close>, \<^verbatim>\<open>Delete("a")\<close> submits the delete of \<^verbatim>\<open>ab.txt\<close>, a
  key that does not have the normalized prefix \<^verbatim>\<open>a/\<close> and is neither the path
  \<^verbatim>\<open>a\<close> nor under it, and the bucket is empty when the call returns nil. The
  streaming matcher, asked for the same prefix, does not see that key.
\<close>

theorem Delete_visits_key_outside_normalized_prefix:
  "normalize_prefix ''a'' = ''a/''
   \<and> \<not> HasPrefix ''ab.txt'' (normalize_prefix ''a'')
   \<and> started (applyRecursive sibling_world ''a'' 128 Delete_fn [Main, Main]) = [''ab.txt'']
   \<and> snd (Delete gcs sibling_world ''a'' [Main, Main, OpReturn 0, GoExit 0, Main, Main])
       = Some None
   \<and> contents (remote (fst (Delete gcs sibling_world ''a''
                               [Main, Main, OpReturn 0, GoExit 0, Main, Main]))) = []
   \<and> MatchFilenamesRecursive gcs (remote sibling_world) ''a'' ''ab.txt'' = ([], Closed)"
  by code_simp

lemma attrs_names_append: "attrs_names (xs @ ys) = attrs_names xs @ attrs_names ys"
  by (induction xs rule: attrs_names.induct) simp_all

lemma attrs_names_objects: "attrs_names (map object_entry ks) = ks"
  by (induction ks) (simp_all add: object_entry_def)

lemma list_objects_recursive:
  "list_objects objs \<lparr>Prefix = p, Delimiter = []\<rparr>
   = map object_entry (filter (\<lambda>k. HasPrefix k p) (map fst objs))"
  by (simp add: list_objects_def)

lemma attrs_names_Objects:
  "attrs_names (Objects b \<lparr>Prefix = p, Delimiter = []\<rparr>) =
     (case list_fault b \<lparr>Prefix = p, Delimiter = []\<rparr> of
        None \<Rightarrow> filter (\<lambda>k. HasPrefix k p) (map fst (contents b))
      | Some (n, e) \<Rightarrow> take n (filter (\<lambda>k. HasPrefix k p) (map fst (contents b))))"
  by (simp add: Objects_def list_objects_recursive attrs_names_append attrs_names_objects
      take_map split: option.splits)

lemma traversal_inv_start: "traversal_inv (Objects (remote w) \<lparr>Prefix = dir, Delimiter = []\<rparr>)
                              (applyRecursive_start w dir)"
  by (simp add: traversal_inv_def applyRecursive_start_def)

lemma traversal_inv_step:
  assumes "traversal_inv answers st"
    and "applyRecursive_step concurrency fn ev st = Some st'"
  shows "traversal_inv answers st'"
proof (cases ev)
  case Main
  show ?thesis
  proof (cases "pc st")
    case AtNext
    with assms(1) obtain pre where pre: "answers = pre @ it st" "attrs_names pre = started st"
      and sub: "set (started st) \<subseteq> set (attrs_names answers)"
      by (auto simp: traversal_inv_def)
    show ?thesis
    proof (cases "it st")
      case Nil
      with assms(2) Main AtNext pre sub show ?thesis
        by (auto simp: applyRecursive_step_def traversal_inv_def)
    next
      case (Cons x rest)
      then have split: "answers = (pre @ [x]) @ rest" using pre by simp
      show ?thesis
      proof (cases x)
        case (Attrs attrs)
        have "attrs_names (pre @ [x]) = started st @ [Name attrs]"
          using pre Attrs by (simp add: attrs_names_append)
        with assms(2) Main AtNext Cons Attrs split sub show ?thesis
          by (auto simp: applyRecursive_step_def traversal_inv_def)
      next
        case (Err err)
        with assms(2) Main AtNext Cons sub show ?thesis
          by (auto simp: applyRecursive_step_def traversal_inv_def)
      qed
    qed
  next
    case (AtAcquire name)
    with assms(1) obtain pre where pre: "answers = pre @ it st"
        "attrs_names pre = started st @ [name]"
      by (auto simp: traversal_inv_def)
    then have "set (started st @ [name]) \<subseteq> set (attrs_names answers)"
      by (metis attrs_names_append set_append sup_ge1)
    with assms(2) Main AtAcquire pre show ?thesis
      by (auto simp: applyRecursive_step_def traversal_inv_def split: if_splits)
  next
    case AtWait
    with assms Main show ?thesis
      by (auto simp: applyRecursive_step_def traversal_inv_def split: if_splits)
  next
    case (Returned r)
    with assms Main show ?thesis
      by (simp add: applyRecursive_step_def)
  qed
next
  case AcquireCanceled
  with assms show ?thesis
    by (auto simp: applyRecursive_step_def traversal_inv_def split: position.splits if_splits)
next
  case (OpReturn i)
  with assms show ?thesis
    by (auto simp: applyRecursive_step_def traversal_inv_def
        split: prod.splits if_splits position.splits)
next
  case (GoExit j)
  with assms show ?thesis
    by (auto simp: applyRecursive_step_def traversal_inv_def Let_def
        split: if_splits position.splits)
qed

lemma traversal_inv_run:
  "traversal_inv (Objects (remote w) \<lparr>Prefix = dir, Delimiter = []\<rparr>)
     (applyRecursive w dir concurrency fn sched)"
  unfolding applyRecursive_def
  by (rule run_invariant
        [where P = "traversal_inv (Objects (remote w) \<lparr>Prefix = dir, Delimiter = []\<rparr>)"],
      rule traversal_inv_start, rule traversal_inv_step)

lemma listRecursive_loop_objects:
  "listRecursive_loop s folder flt (map object_entry ks)
   = (map (\<lambda>k. \<lparr>Path = k, Error = None\<rparr>) (filter flt ks), Closed)"
  by (induction ks) (simp_all add: object_entry_def)

lemma List_loop_entries:
  "List_loop s d (map object_entry ks @ map dir_entry ds) acc
   = Inr (acc @ ks @ map (\<lambda>p. []) ds)"
proof (induction ks arbitrary: acc)
  case Nil
  show ?case by (induction ds arbitrary: acc) (simp_all add: dir_entry_def)
next
  case (Cons k ks)
  then show ?case by (simp add: object_entry_def)
qed

text \<open>
  The sibling traversals do normalize. Over a listing without fault,
  \<^verbatim>\<open>listRecursive\<close> (so \<^verbatim>\<open>MatchFilenamesRecursive\<close>) passes to its filter
  exactly the keys that have the normalized prefix as a literal prefix, in listing order,
  and closes the channel; every non-empty name that \<^verbatim>\<open>List\<close> returns is a key with
  the normalized prefix.
\<close>

lemma listRecursive_visits_normalized_prefix:
  assumes "list_fault b \<lparr>Prefix = normalize_prefix P, Delimiter = []\<rparr> = None"
  shows "listRecursive s b P flt
      = (map (\<lambda>k. \<lparr>Path = k, Error = None\<rparr>)
           (filter flt (filter (\<lambda>k. HasPrefix k (normalize_prefix P)) (map fst (contents b)))),
         Closed)"
  using assms
  by (simp add: listRecursive_def Objects_def list_objects_recursive
      listRecursive_loop_objects)

lemma List_names_have_normalized_prefix:
  assumes "list_fault b \<lparr>Prefix = normalize_prefix P, Delimiter = ''/''\<rparr> = None"
  shows "\<exists>names. List s b P = Inr names
           \<and> (\<forall>n \<in> set names. n = [] \<or>
                 (n \<in> fst ` set (contents b) \<and> HasPrefix n (normalize_prefix P)))"
  using assms
  by (auto simp: List_def Let_def Objects_def list_objects_def List_loop_entries)

text \<open>
  How far the defect of \<^verbatim>\<open>applyRecursive\<close> reaches: under every schedule the keys
  it submits are among the keys that begin with the string \<open>P\<close> as passed, which
  includes keys outside the directory \<open>P\<close>; when it returns nil over a listing
  without fault it has submitted every one of them.
\<close>

lemma applyRecursive_submits_raw_prefix:
  "set (started (applyRecursive w P concurrency fn sched))
        \<subseteq> {k \<in> fst ` set (contents (remote w)). HasPrefix k P}
   \<and> (list_fault (remote w) \<lparr>Prefix = P, Delimiter = []\<rparr> = None
        \<and> result_of (applyRecursive w P concurrency fn sched) = Some None \<longrightarrow>
        started (applyRecursive w P concurrency fn sched)
        = filter (\<lambda>k. HasPrefix k P) (map fst (contents (remote w))))"
proof -
  let ?st = "applyRecursive w P concurrency fn sched"
  let ?answers = "Objects (remote w) \<lparr>Prefix = P, Delimiter = []\<rparr>"
  have inv: "traversal_inv ?answers ?st" by (rule traversal_inv_run)
  have names: "set (attrs_names ?answers)
                 \<subseteq> {k \<in> fst ` set (contents (remote w)). HasPrefix k P}"
    by (auto simp: attrs_names_Objects split: option.splits dest: in_set_takeD)
  from inv have "set (started ?st) \<subseteq> set (attrs_names ?answers)"
    by (simp add: traversal_inv_def)
  with names have 3: "set (started ?st) \<subseteq> {k \<in> fst ` set (contents (remote w)). HasPrefix k P}"
    by blast
  have 4: "list_fault (remote w) \<lparr>Prefix = P, Delimiter = []\<rparr> = None
        \<and> result_of ?st = Some None \<longrightarrow>
        started ?st = filter (\<lambda>k. HasPrefix k P) (map fst (contents (remote w)))"
  proof
    assume h: "list_fault (remote w) \<lparr>Prefix = P, Delimiter = []\<rparr> = None
               \<and> result_of ?st = Some None"
    then have "pc ?st = Returned None"
      by (auto simp: result_of_def split: position.splits)
    with inv have "attrs_names ?answers = started ?st"
      by (simp add: traversal_inv_def)
    with h show "started ?st = filter (\<lambda>k. HasPrefix k P) (map fst (contents (remote w)))"
      by (simp add: attrs_names_Objects)
  qed
  from 3 4 show ?thesis by blast
qed

end
